theory Spec2Isabelle
  imports Complex_Main "HOL-Library.Word"
begin

section \<open>Amortizing fixed-rate bond: the sinking-fund schedule\<close>

text \<open>
  A shallow embedding of \<^verbatim>\<open>ql/experimental/amortizingbonds/amortizingfixedratebond.cpp\<close>.
  Exceptions and undefined behaviour are values of the type \<open>Error\<close>; a function that can
  throw returns \<open>Error + 'a\<close>, with \<open>Inl\<close> for the failure.
\<close>

subsection \<open>Errors\<close>

datatype Error =
    UnknownTimeUnit int      \<comment> \<open>\<^verbatim>\<open>QL_FAIL("unknown time unit (...)")\<close> in \<^verbatim>\<open>daysMinMax\<close>\<close>
  | IncompatibleFrequency    \<comment> \<open>\<^verbatim>\<open>QL_REQUIRE(isSubPeriod(...), "Bond frequency is incompatible ...")\<close>\<close>
  | NoCashflows              \<comment> \<open>\<^verbatim>\<open>QL_ENSURE(!cashflows().empty(), "bond with no cashflows!")\<close>\<close>
  | LibraryError string      \<comment> \<open>an \<^verbatim>\<open>Error\<close> thrown by library code outside this file\<close>
  | IntegerOverflow          \<comment> \<open>signed overflow of an \<^verbatim>\<open>Integer\<close> (undefined behaviour)\<close>
  | InvalidConversion        \<comment> \<open>\<^verbatim>\<open>static_cast<Integer>\<close> of a value no \<^verbatim>\<open>Integer\<close> holds (undefined behaviour)\<close>
  | LengthError              \<comment> \<open>a \<^verbatim>\<open>std::vector\<close> asked for more elements than it can hold\<close>
  | OutOfBounds              \<comment> \<open>a vector element accessed outside the vector (undefined behaviour)\<close>

definition bindE :: "'e + 'a \<Rightarrow> ('a \<Rightarrow> 'e + 'b) \<Rightarrow> 'e + 'b" where
  "bindE m f = (case m of Inl e \<Rightarrow> Inl e | Inr x \<Rightarrow> f x)"

subsection \<open>Machine numbers\<close>

text \<open>
  \<^verbatim>\<open>Integer\<close> is a 32-bit \<^verbatim>\<open>int\<close>. It is modelled as \<open>int\<close>, and every arithmetic
  operation of the source on it checks the range: signed overflow is undefined behaviour
  in C++ and is the error \<open>IntegerOverflow\<close> here.
\<close>

definition IntegerRange :: "int \<Rightarrow> bool" where
  "IntegerRange x \<longleftrightarrow> - 2147483648 \<le> x \<and> x \<le> 2147483647"

definition Integer_pair :: "int \<Rightarrow> int \<Rightarrow> Error + (int \<times> int)" where
  "Integer_pair a b = (if IntegerRange a \<and> IntegerRange b then Inr (a, b) else Inl IntegerOverflow)"

text \<open>
  \<^verbatim>\<open>Real\<close> is a \<^verbatim>\<open>double\<close>. The model keeps the special values of IEEE 754 (the
  infinities and not-a-number) and computes exactly on finite values: rounding, overflow
  to infinity and the sign of zero are not modelled (a zero divisor counts as \<open>+0\<close>).
  The model therefore gives the values of the code only where no operation rounds, as on
  the integers and the values 0 and 1 below; what is proved for all inputs does not rest
  on the value of a rounded result.
\<close>

datatype Real = Finite real | PlusInf | MinusInf | NaN

definition Real_of_int :: "int \<Rightarrow> Real" where
  "Real_of_int i = Finite (of_int i)"

fun Real_neg :: "Real \<Rightarrow> Real" where
  "Real_neg (Finite a) = Finite (- a)"
| "Real_neg PlusInf = MinusInf"
| "Real_neg MinusInf = PlusInf"
| "Real_neg NaN = NaN"

fun Real_add :: "Real \<Rightarrow> Real \<Rightarrow> Real" where
  "Real_add NaN _ = NaN"
| "Real_add _ NaN = NaN"
| "Real_add (Finite a) (Finite b) = Finite (a + b)"
| "Real_add (Finite a) PlusInf = PlusInf"
| "Real_add (Finite a) MinusInf = MinusInf"
| "Real_add PlusInf (Finite b) = PlusInf"
| "Real_add MinusInf (Finite b) = MinusInf"
| "Real_add PlusInf PlusInf = PlusInf"
| "Real_add MinusInf MinusInf = MinusInf"
| "Real_add PlusInf MinusInf = NaN"
| "Real_add MinusInf PlusInf = NaN"

definition Real_sub :: "Real \<Rightarrow> Real \<Rightarrow> Real" where
  "Real_sub a b = Real_add a (Real_neg b)"

text \<open>An infinity of the sign of \<open>s\<close>; not-a-number when \<open>s = 0\<close>.\<close>

definition signedInf :: "real \<Rightarrow> Real" where
  "signedInf s = (if s = 0 then NaN else if 0 < s then PlusInf else MinusInf)"

fun Real_mul :: "Real \<Rightarrow> Real \<Rightarrow> Real" where
  "Real_mul NaN _ = NaN"
| "Real_mul _ NaN = NaN"
| "Real_mul (Finite a) (Finite b) = Finite (a * b)"
| "Real_mul (Finite a) PlusInf = signedInf a"
| "Real_mul (Finite a) MinusInf = signedInf (- a)"
| "Real_mul PlusInf (Finite b) = signedInf b"
| "Real_mul MinusInf (Finite b) = signedInf (- b)"
| "Real_mul PlusInf PlusInf = PlusInf"
| "Real_mul MinusInf MinusInf = PlusInf"
| "Real_mul PlusInf MinusInf = MinusInf"
| "Real_mul MinusInf PlusInf = MinusInf"

fun Real_div :: "Real \<Rightarrow> Real \<Rightarrow> Real" where
  "Real_div NaN _ = NaN"
| "Real_div _ NaN = NaN"
| "Real_div (Finite a) (Finite b) = (if b = 0 then signedInf a else Finite (a / b))"
| "Real_div (Finite a) PlusInf = Finite 0"
| "Real_div (Finite a) MinusInf = Finite 0"
| "Real_div PlusInf (Finite b) = (if 0 \<le> b then PlusInf else MinusInf)"
| "Real_div MinusInf (Finite b) = (if 0 \<le> b then MinusInf else PlusInf)"
| "Real_div PlusInf PlusInf = NaN"
| "Real_div MinusInf MinusInf = NaN"
| "Real_div PlusInf MinusInf = NaN"
| "Real_div MinusInf PlusInf = NaN"

text \<open>
  \<^verbatim>\<open>std::pow(x, n)\<close> for an \<^verbatim>\<open>Integer\<close> exponent: \<open>pow(x, 0) = 1\<close> for every \<open>x\<close>, also
  for not-a-number.
\<close>

fun Real_pow :: "Real \<Rightarrow> int \<Rightarrow> Real" where
  "Real_pow x n =
     (if n = 0 then Finite 1
      else (case x of
              NaN \<Rightarrow> NaN
            | Finite a \<Rightarrow>
                (if 0 < n then Finite (a ^ nat n)
                 else if a = 0 then PlusInf
                 else Finite (1 / a ^ nat (- n)))
            | PlusInf \<Rightarrow> (if 0 < n then PlusInf else Finite 0)
            | MinusInf \<Rightarrow> (if n < 0 then Finite 0 else if even n then PlusInf else MinusInf)))"

fun Real_floor :: "Real \<Rightarrow> Real" where
  "Real_floor (Finite a) = Finite (of_int \<lfloor>a\<rfloor>)"
| "Real_floor x = x"

fun Real_ceil :: "Real \<Rightarrow> Real" where
  "Real_ceil (Finite a) = Finite (of_int \<lceil>a\<rceil>)"
| "Real_ceil x = x"

text \<open>
  \<^verbatim>\<open>static_cast<Integer>(x)\<close> truncates towards zero; the behaviour is undefined when the
  truncated value is no \<^verbatim>\<open>Integer\<close> (an infinity, not-a-number, a value out of range).
\<close>

fun Real_to_Integer :: "Real \<Rightarrow> Error + int" where
  "Real_to_Integer (Finite a) =
     (let t = (if 0 \<le> a then \<lfloor>a\<rfloor> else \<lceil>a\<rceil>)
      in if IntegerRange t then Inr t else Inl InvalidConversion)"
| "Real_to_Integer x = Inl InvalidConversion"

subsection \<open>Periods and frequencies\<close>

text \<open>
  The time units of \<^verbatim>\<open>ql/time/timeunit.hpp\<close>. \<open>OtherUnit\<close> stands for any other value
  the enumeration type can hold, carried as its integer.
\<close>

datatype TimeUnit = Days | Weeks | Months | Years | OtherUnit int

datatype Period = Period (length_P: int) (units_P: TimeUnit)

text \<open>
  The operators of \<^verbatim>\<open>Period\<close> that \<^verbatim>\<open>isSubPeriod\<close> calls are declared outside this file
  and can throw: \<open>multiply\<close> is \<^verbatim>\<open>operator*(const Period&, Integer)\<close> and \<open>equals\<close> is
  \<^verbatim>\<open>operator==(const Period&, const Period&)\<close>. The functions of this file take them as a
  parameter.
\<close>

record PeriodOps =
  multiply :: "Period \<Rightarrow> int \<Rightarrow> Error + Period"
  equals :: "Period \<Rightarrow> Period \<Rightarrow> Error + bool"

text \<open>
  Modelled from the spec: the operators of \<^verbatim>\<open>Period\<close> (\<^verbatim>\<open>ql/time/period.hpp\<close>) are
  missing. The spec: "Multiplying by an integer scales length under fixed unit; equality
  compares normalized length+unit". Normalisation expresses years in months and weeks in
  days.
\<close>

fun normalize :: "Period \<Rightarrow> Period" where
  "normalize (Period n Years) = Period (12 * n) Months"
| "normalize (Period n Weeks) = Period (7 * n) Days"
| "normalize p = p"

definition specMultiply :: "Period \<Rightarrow> int \<Rightarrow> Error + Period" where
  "specMultiply p n = Inr (Period (length_P p * n) (units_P p))"

definition specEquals :: "Period \<Rightarrow> Period \<Rightarrow> Error + bool" where
  "specEquals p q = Inr (normalize p = normalize q)"

definition specOps :: PeriodOps where
  "specOps = \<lparr> multiply = specMultiply, equals = specEquals \<rparr>"

text \<open>
  Modelled from the spec: the enumeration \<^verbatim>\<open>Frequency\<close> (\<^verbatim>\<open>ql/time/frequency.hpp\<close>), its
  integer values and the constructor \<^verbatim>\<open>Period(Frequency)\<close> are missing. The spec names the
  annual, semiannual, quarterly and monthly frequencies; a frequency's value is its number
  of periods in a year ("semiannual \<open>\<leftrightarrow>\<close> 6 months", "\<open>c = couponRate / frequency\<close>"), and
  the annual frequency is the period of one year.
\<close>

datatype Frequency = Annual | Semiannual | Quarterly | Monthly

fun Frequency_value :: "Frequency \<Rightarrow> int" where
  "Frequency_value Annual = 1"
| "Frequency_value Semiannual = 2"
| "Frequency_value Quarterly = 4"
| "Frequency_value Monthly = 12"

fun Period_of_Frequency :: "Frequency \<Rightarrow> Period" where
  "Period_of_Frequency Annual = Period 1 Years"
| "Period_of_Frequency f = Period (12 div Frequency_value f) Months"

subsection \<open>Period arithmetic: \<^verbatim>\<open>daysMinMax\<close>\<close>

fun daysMinMax :: "Period \<Rightarrow> Error + (int \<times> int)" where
  "daysMinMax p =
     (case units_P p of
        Days \<Rightarrow> Inr (length_P p, length_P p)
      | Weeks \<Rightarrow> Integer_pair (7 * length_P p) (7 * length_P p)
      | Months \<Rightarrow> Integer_pair (28 * length_P p) (31 * length_P p)
      | Years \<Rightarrow> Integer_pair (365 * length_P p) (366 * length_P p)
      | OtherUnit u \<Rightarrow> Inl (UnknownTimeUnit u))"

subsection \<open>The period-compatibility check: \<^verbatim>\<open>isSubPeriod\<close>\<close>

text \<open>
  The two ratios are quotients of \<^verbatim>\<open>Integer\<close>s computed in \<^verbatim>\<open>double\<close>. Such a quotient is
  rounded by less than its distance to the next integer, so its floor and its ceiling are
  those of the exact quotient, which the model computes.

  The loop \<^verbatim>\<open>for (Integer i = lowRatio; i <= highRatio; ++i)\<close> inside the \<^verbatim>\<open>try\<close> block.
  The result \<open>Inr (Some i)\<close> is \<^verbatim>\<open>return true\<close> with \<^verbatim>\<open>numSubPeriods = i\<close>, and \<open>Inr None\<close>
  is \<^verbatim>\<open>return false\<close>. The \<^verbatim>\<open>catch (Error e)\<close> clause encloses the whole loop: an error
  of either operator ends the search with \<^verbatim>\<open>return false\<close>.
\<close>

function searchLoop :: "PeriodOps \<Rightarrow> Period \<Rightarrow> Period \<Rightarrow> int \<Rightarrow> int \<Rightarrow> Error + int option" where
  "searchLoop ops subPeriod superPeriod i highRatio =
     (if i \<le> highRatio then
        (case multiply ops subPeriod i of
           Inl e \<Rightarrow> Inr None
         | Inr testPeriod \<Rightarrow>
             (case equals ops testPeriod superPeriod of
                Inl e \<Rightarrow> Inr None
              | Inr True \<Rightarrow> Inr (Some i)
              | Inr False \<Rightarrow>
                  (if i = 2147483647 then Inl IntegerOverflow
                   else searchLoop ops subPeriod superPeriod (i + 1) highRatio)))
      else Inr None)"
  by pat_completeness auto
termination
  by (relation "measure (\<lambda>(ops, subPeriod, superPeriod, i, highRatio). nat (highRatio + 1 - i))") auto

definition isSubPeriod :: "PeriodOps \<Rightarrow> Period \<Rightarrow> Period \<Rightarrow> Error + int option" where
  "isSubPeriod ops subPeriod superPeriod =
     bindE (daysMinMax superPeriod) (\<lambda>superDays.
     bindE (daysMinMax subPeriod) (\<lambda>subDays.
       let minPeriodRatio = Real_div (Real_of_int (fst superDays)) (Real_of_int (snd subDays));
           maxPeriodRatio = Real_div (Real_of_int (snd superDays)) (Real_of_int (fst subDays))
       in
     bindE (Real_to_Integer (Real_floor minPeriodRatio)) (\<lambda>lowRatio.
     bindE (Real_to_Integer (Real_ceil maxPeriodRatio)) (\<lambda>highRatio.
       searchLoop ops subPeriod superPeriod lowRatio highRatio))))"

subsection \<open>Vectors\<close>

text \<open>
  \<^verbatim>\<open>Size\<close> is \<^verbatim>\<open>std::size_t\<close>, 64 bits wide. A \<^verbatim>\<open>std::vector<Real>\<close> is a list. Its
  constructor throws when asked for more than \<^verbatim>\<open>max_size()\<close> elements (an \<^verbatim>\<open>Integer\<close>
  below zero converts to such a \<^verbatim>\<open>Size\<close>) and otherwise fills the vector with zeros;
  \<^verbatim>\<open>front()\<close>, \<^verbatim>\<open>back()\<close> and \<^verbatim>\<open>operator[]\<close> check nothing, so an access outside the
  vector is undefined behaviour, the error \<open>OutOfBounds\<close> here.
\<close>

type_synonym Size = "64 word"

definition vector_max_size :: nat where
  "vector_max_size = 2 ^ 60 - 1"

definition vector_new :: "Size \<Rightarrow> Error + Real list" where
  "vector_new n =
     (if unat n \<le> vector_max_size then Inr (replicate (unat n) (Finite 0)) else Inl LengthError)"

definition set_front :: "Real list \<Rightarrow> Real \<Rightarrow> Error + Real list" where
  "set_front v x = (if v = [] then Inl OutOfBounds else Inr (v[0 := x]))"

definition set_back :: "Real list \<Rightarrow> Real \<Rightarrow> Error + Real list" where
  "set_back v x = (if v = [] then Inl OutOfBounds else Inr (v[length v - 1 := x]))"

subsection \<open>The amortization calculator: \<^verbatim>\<open>SinkingNotionals\<close>\<close>

type_synonym Date = int

text \<open>
  The loop \<^verbatim>\<open>for (Size i = 0; i < (Size)nPeriods-1; ++i)\<close>; \<open>bound\<close> is the value of
  \<^verbatim>\<open>(Size)nPeriods-1\<close>. Inside the loop \<open>i\<close> is below a \<^verbatim>\<open>Size\<close>, so \<open>i + 1\<close> does not wrap.
\<close>

function notionalsLoop ::
  "nat \<Rightarrow> nat \<Rightarrow> Real \<Rightarrow> Real \<Rightarrow> Real \<Rightarrow> Real \<Rightarrow> Real list \<Rightarrow> Error + Real list" where
  "notionalsLoop i bound coupon totalValue initialNotional compoundedInterest notionals =
     (if i < bound then
        (let compoundedInterest' = Real_mul compoundedInterest (Real_add (Finite 1) coupon);
             currentNotional =
               Real_mul initialNotional
                 (Real_sub compoundedInterest'
                    (Real_div (Real_sub compoundedInterest' (Finite 1))
                       (Real_sub (Finite 1) (Real_div (Finite 1) totalValue))))
         in if i + 1 < length notionals
            then notionalsLoop (i + 1) bound coupon totalValue initialNotional
                   compoundedInterest' (notionals[i + 1 := currentNotional])
            else Inl OutOfBounds)
      else Inr notionals)"
  by pat_completeness auto
termination
  by (relation "measure (\<lambda>(i, bound, coupon, totalValue, initialNotional, compoundedInterest, notionals). bound - i)") auto

definition SinkingNotionals ::
  "PeriodOps \<Rightarrow> Date \<Rightarrow> Period \<Rightarrow> Frequency \<Rightarrow> Real \<Rightarrow> Real \<Rightarrow> Error + Real list" where
  "SinkingNotionals ops startDate maturityTenor sinkingFrequency couponRate initialNotional =
     (let freqPeriod = Period_of_Frequency sinkingFrequency in
      bindE (isSubPeriod ops freqPeriod maturityTenor) (\<lambda>found.
        case found of
          None \<Rightarrow> Inl IncompatibleFrequency
        | Some nPeriods \<Rightarrow>
            (if \<not> IntegerRange (nPeriods + 1) then Inl IntegerOverflow
             else
               bindE (vector_new (word_of_int (nPeriods + 1))) (\<lambda>notionals.
               bindE (set_front notionals initialNotional) (\<lambda>notionals.
                 let coupon = Real_div couponRate (Real_of_int (Frequency_value sinkingFrequency));
                     compoundedInterest = Finite 1;
                     totalValue = Real_pow (Real_add (Finite 1) coupon) nPeriods
                 in
               bindE (notionalsLoop 0 (unat ((word_of_int nPeriods :: Size) - 1)) coupon totalValue
                        initialNotional compoundedInterest notionals) (\<lambda>notionals.
                 set_back notionals (Finite 0)))))))"

subsection \<open>The redemptions: \<^verbatim>\<open>SinkingRedemptions\<close>\<close>

function redemptionsLoop ::
  "nat \<Rightarrow> nat \<Rightarrow> Real list \<Rightarrow> Real \<Rightarrow> Real list \<Rightarrow> Error + Real list" where
  "redemptionsLoop i nPeriods notionals initialNotional redemptions =
     (if i < nPeriods then
        (if i + 1 < length notionals \<and> i < length redemptions
         then redemptionsLoop (i + 1) nPeriods notionals initialNotional
                (redemptions[i :=
                   Real_mul (Real_div (Real_sub (notionals ! i) (notionals ! (i + 1))) initialNotional)
                     (Finite 100)])
         else Inl OutOfBounds)
      else Inr redemptions)"
  by pat_completeness auto
termination
  by (relation "measure (\<lambda>(i, nPeriods, notionals, initialNotional, redemptions). nPeriods - i)") auto

definition SinkingRedemptions ::
  "PeriodOps \<Rightarrow> Date \<Rightarrow> Period \<Rightarrow> Frequency \<Rightarrow> Real \<Rightarrow> Real \<Rightarrow> Error + Real list" where
  "SinkingRedemptions ops startDate maturityTenor sinkingFrequency couponRate initialNotional =
     bindE (SinkingNotionals ops startDate maturityTenor sinkingFrequency couponRate initialNotional)
       (\<lambda>notionals.
          let nPeriods = (word_of_nat (length notionals) :: Size) - 1 in
          bindE (vector_new nPeriods) (\<lambda>redemptions.
            redemptionsLoop 0 (unat nPeriods) notionals initialNotional redemptions))"


subsection \<open>The two constructors\<close>

text \<open>
  Modelled from the spec: the calendar, the day counter, the business-day convention, the
  date-generation rule, the schedule and the cash flows are library types declared
  outside this file. A calendar and a day counter are their names, the convention and the
  rule are the values this file names and any other, a schedule is the three accessors the
  constructor reads, and a cash flow is "a dated monetary amount" of one of the "two
  kinds", coupon and redemption.
\<close>

type_synonym Calendar = string
type_synonym DayCounter = string

datatype BusinessDayConvention = Unadjusted | OtherConvention nat

datatype DateGenerationRule = Backward | OtherRule nat

record Schedule =
  schedule_calendar :: Calendar
  schedule_tenor :: Period
  schedule_endDate :: Date

datatype CashFlow = CouponCashFlow Date Real | RedemptionCashFlow Date Real

type_synonym Leg = "CashFlow list"

text \<open>
  The library functions the constructors call, taken as a parameter; each can throw.
  \<open>periodFrequency\<close> is \<^verbatim>\<open>Period::frequency()\<close>, \<open>advance\<close> is \<^verbatim>\<open>Date + Period\<close>,
  \<open>makeSchedule\<close> is the constructor of \<^verbatim>\<open>Schedule\<close>, \<open>FixedRateLeg\<close> is the coupon-leg
  builder with its notionals, coupon rates and payment adjustment, and
  \<open>addRedemptionsToCashflows\<close> is the member of the base class \<^verbatim>\<open>Bond\<close> that returns the
  cash flows with the redemptions added.
\<close>

record Library =
  periodFrequency :: "Period \<Rightarrow> Error + Frequency"
  advance :: "Date \<Rightarrow> Period \<Rightarrow> Error + Date"
  makeSchedule ::
    "Date \<Rightarrow> Date \<Rightarrow> Period \<Rightarrow> Calendar \<Rightarrow> BusinessDayConvention \<Rightarrow> BusinessDayConvention \<Rightarrow>
     DateGenerationRule \<Rightarrow> bool \<Rightarrow> Error + Schedule"
  FixedRateLeg ::
    "Schedule \<Rightarrow> DayCounter \<Rightarrow> Real list \<Rightarrow> Real list \<Rightarrow> BusinessDayConvention \<Rightarrow> Error + Leg"
  addRedemptionsToCashflows :: "Leg \<Rightarrow> Real list \<Rightarrow> Error + Leg"

record Bond =
  bond_settlementDays :: nat
  bond_calendar :: Calendar
  bond_issueDate :: Date
  bond_frequency :: Frequency
  bond_dayCounter :: DayCounter
  bond_maturityDate :: Date
  bond_cashflows :: Leg


definition SinkingSchedule ::
  "Library \<Rightarrow> Date \<Rightarrow> Period \<Rightarrow> Frequency \<Rightarrow> Calendar \<Rightarrow> Error + Schedule" where
  "SinkingSchedule lib startDate maturityTenor sinkingFrequency paymentCalendar =
     (let freqPeriod = Period_of_Frequency sinkingFrequency in
      bindE (advance lib startDate maturityTenor) (\<lambda>maturityDate.
        makeSchedule lib startDate maturityDate freqPeriod paymentCalendar
          Unadjusted Unadjusted Backward False))"

text \<open>
  The constructor of a sinking-fund bond, lines 167 to 195. It passes the single coupon
  rate and calls \<^verbatim>\<open>addRedemptionsToCashflows()\<close> with its default argument, the empty
  vector; it has no check of the cash flows of its own. The model builds the schedule
  before it computes the notionals, the order of C++17 for the call
  \<^verbatim>\<open>FixedRateLeg(...).withNotionals(...)\<close>; earlier standards leave the order open.
\<close>

definition AmortizingFixedRateBond_sinking ::
  "Library \<Rightarrow> PeriodOps \<Rightarrow> nat \<Rightarrow> Calendar \<Rightarrow> Real \<Rightarrow> Date \<Rightarrow> Period \<Rightarrow> Frequency \<Rightarrow> Real \<Rightarrow>
   DayCounter \<Rightarrow> BusinessDayConvention \<Rightarrow> Date \<Rightarrow> Error + Bond" where
  "AmortizingFixedRateBond_sinking lib ops settlementDays calendar initialFaceAmount startDate
       bondTenor sinkingFrequency coupon accrualDayCounter paymentConvention issueDate =
     bindE (advance lib startDate bondTenor) (\<lambda>maturityDate.
     bindE (SinkingSchedule lib startDate bondTenor sinkingFrequency calendar) (\<lambda>schedule.
     bindE (SinkingNotionals ops startDate bondTenor sinkingFrequency coupon initialFaceAmount)
       (\<lambda>notionals.
     bindE (FixedRateLeg lib schedule accrualDayCounter notionals [coupon] paymentConvention)
       (\<lambda>cashflows.
     bindE (addRedemptionsToCashflows lib cashflows []) (\<lambda>cashflows.
       Inr \<lparr> bond_settlementDays = settlementDays,
             bond_calendar = calendar,
             bond_issueDate = issueDate,
             bond_frequency = sinkingFrequency,
             bond_dayCounter = accrualDayCounter,
             bond_maturityDate = maturityDate,
             bond_cashflows = cashflows \<rparr>)))))"

subsection \<open>Inputs of the examples\<close>

text \<open>
  Period operators that differ from \<open>specOps\<close> in one point: the multiplication throws
  when the scaled period is degenerate (of length zero), the spec's example of an invalid
  candidate.
\<close>

definition strictMultiply :: "Period \<Rightarrow> int \<Rightarrow> Error + Period" where
  "strictMultiply p n =
     (if length_P p * n = 0 then Inl (LibraryError ''degenerate period'')
      else Inr (Period (length_P p * n) (units_P p)))"

definition strictOps :: PeriodOps where
  "strictOps = \<lparr> multiply = strictMultiply, equals = specEquals \<rparr>"

text \<open>
  Modelled from the spec: the coupon-leg builder and \<^verbatim>\<open>addRedemptionsToCashflows\<close> are
  missing. The spec: the builder "turns a schedule + notionals + rates into dated interest
  cash flows", and each constructor "appends redemption cash flows". This library builds
  one coupon cash flow for each period, that is for each notional but the last, and
  appends one redemption cash flow for each redemption it is given.
\<close>

definition periodLegLibrary :: Library where
  "periodLegLibrary =
     \<lparr> periodFrequency = (\<lambda>p. Inr Annual),
       advance = (\<lambda>d p. Inr d),
       makeSchedule = (\<lambda>startDate endDate period calendar convention terminationConvention
                         rule endOfMonth.
                         Inr \<lparr> schedule_calendar = calendar, schedule_tenor = period,
                               schedule_endDate = endDate \<rparr>),
       FixedRateLeg = (\<lambda>schedule dayCounter notionals coupons convention.
                         Inr (map (CouponCashFlow (schedule_endDate schedule)) (butlast notionals))),
       addRedemptionsToCashflows = (\<lambda>cashflows redemptions.
                         Inr (cashflows @ map (RedemptionCashFlow 0) redemptions)) \<rparr>"

declare searchLoop.simps [simp del]
declare notionalsLoop.simps [simp del]
declare redemptionsLoop.simps [simp del]

section \<open>Properties\<close>

subsection \<open>Sequencing, sizes and vectors\<close>

lemma bindE_simps [simp]:
  "bindE (Inl e) f = Inl e"
  "bindE (Inr x) f = f x"
  by (simp_all add: bindE_def)

lemma unat_Size_of_int: "0 \<le> m \<Longrightarrow> m < 18446744073709551616 \<Longrightarrow> unat (word_of_int m :: Size) = nat m"
  by (simp add: unat_eq_nat_uint uint_word_of_int take_bit_int_eq_self)

lemma vector_max_size_eq: "vector_max_size = 1152921504606846975"
  by (simp add: vector_max_size_def)

lemma unat_Size_pred: 
  assumes "1 \<le> n" "IntegerRange n"
  shows "unat ((word_of_int n :: Size) - 1) = nat (n - 1)"
proof -
  have "(word_of_int n :: Size) - 1 = word_of_int (n - 1)" by simp
  moreover have "0 \<le> n - 1" "n - 1 < 18446744073709551616"
    using assms unfolding IntegerRange_def by linarith+
  ultimately show ?thesis using unat_Size_of_int [of "n - 1"] by presburger
qed

lemma vector_new_Size: 
  assumes "0 \<le> m" "IntegerRange m"
  shows "vector_new (word_of_int m) = Inr (replicate (nat m) (Finite 0))"
proof -
  have "m < 18446744073709551616" using assms unfolding IntegerRange_def by linarith
  then have "unat (word_of_int m :: Size) = nat m"
    using assms unat_Size_of_int by blast
  moreover have "nat m \<le> vector_max_size"
    using assms unfolding vector_max_size_eq IntegerRange_def by linarith
  ultimately show ?thesis by (simp add: vector_new_def)
qed

lemma vector_new_negative:
  assumes "m < 0" "IntegerRange m"
  shows "vector_new (word_of_int m) = Inl LengthError"
proof -
  have "(word_of_int m :: Size) = word_of_int (m + 18446744073709551616)"
    by (simp add: word_of_int_eq_iff take_bit_eq_mod)
  moreover have "0 \<le> m + 18446744073709551616" "m + 18446744073709551616 < 18446744073709551616"
    using assms unfolding IntegerRange_def by linarith+
  ultimately have "unat (word_of_int m :: Size) = nat (m + 18446744073709551616)"
    using unat_Size_of_int [of "m + 18446744073709551616"] by presburger
  moreover have "\<not> nat (m + 18446744073709551616) \<le> vector_max_size"
    using assms unfolding vector_max_size_eq IntegerRange_def by linarith
  ultimately show ?thesis by (simp add: vector_new_def)
qed

subsection \<open>The loop of the amortization calculator\<close>

lemma unat_Size_zero_pred: "0 < unat ((word_of_int 0 :: Size) - 1)"
  by (simp add: unat_gt_0)

lemma notionalsLoop_Inr:
  "bound < length v \<Longrightarrow>
   \<exists>v'. notionalsLoop i bound c tv N ci v = Inr v' \<and> length v' = length v \<and>
        (\<forall>j. j \<le> i \<or> bound < j \<longrightarrow> v' ! j = v ! j)"
proof (induction i bound c tv N ci v rule: notionalsLoop.induct)
  case (1 i bound c tv N ci v)
  show ?case
  proof (cases "i < bound")
    case False
    then show ?thesis by (simp add: notionalsLoop.simps)
  next
    case True
    then have inb: "i + 1 < length v" using "1.prems" by simp
    define ci' where "ci' = Real_mul ci (Real_add (Finite 1) c)"
    define x where "x = Real_mul N (Real_sub ci' (Real_div (Real_sub ci' (Finite 1))
                       (Real_sub (Finite 1) (Real_div (Finite 1) tv))))"
    have "bound < length (v[i + 1 := x])" using "1.prems" by simp
    from "1.IH" [OF True ci'_def x_def inb this]
    obtain v' where v': "notionalsLoop (i + 1) bound c tv N ci' (v[i + 1 := x]) = Inr v'"
      "length v' = length (v[i + 1 := x])"
      "\<forall>j. j \<le> i + 1 \<or> bound < j \<longrightarrow> v' ! j = (v[i + 1 := x]) ! j"
      by blast
    have "notionalsLoop i bound c tv N ci v = Inr v'"
      using True inb v'(1) by (subst notionalsLoop.simps) (simp add: ci'_def x_def Let_def)
    moreover have "length v' = length v" using v'(2) by simp
    moreover have "\<forall>j. j \<le> i \<or> bound < j \<longrightarrow> v' ! j = v ! j"
      using v'(3) True by auto
    ultimately show ?thesis by blast
  qed
qed

lemma notionalsLoop_first_step_out:
  "0 < bound \<Longrightarrow> length v \<le> 1 \<Longrightarrow> notionalsLoop 0 bound c tv N ci v = Inl OutOfBounds"
  by (subst notionalsLoop.simps) (simp add: Let_def)

lemma SinkingNotionals_Some:
  assumes "isSubPeriod ops (Period_of_Frequency f) tenor = Inr (Some n)"
    and "1 \<le> n" and "IntegerRange (n + 1)"
  shows "SinkingNotionals ops d tenor f c N =
     bindE (notionalsLoop 0 (nat (n - 1)) (Real_div c (Real_of_int (Frequency_value f)))
              (Real_pow (Real_add (Finite 1) (Real_div c (Real_of_int (Frequency_value f)))) n)
              N (Finite 1) ((replicate (nat (n + 1)) (Finite 0))[0 := N]))
       (\<lambda>v. set_back v (Finite 0))"
proof -
  have r: "IntegerRange n" using assms(2,3) unfolding IntegerRange_def by linarith
  have "0 \<le> n + 1" using assms(2) by linarith
  then have vn: "vector_new (word_of_int (n + 1)) = Inr (replicate (nat (n + 1)) (Finite 0))"
    using assms(3) vector_new_Size by blast
  have ne: "replicate (nat (n + 1)) (Finite 0) \<noteq> []" using assms(2) by simp
  show ?thesis
    unfolding SinkingNotionals_def Let_def
    using assms(1,3) vn ne unat_Size_pred [OF assms(2) r]
    by (simp add: set_front_def)
qed

lemma SinkingNotionals_bad_count:
  assumes "isSubPeriod ops (Period_of_Frequency f) tenor = Inr (Some n)"
    and "n < 1"
  shows "\<exists>e. SinkingNotionals ops d tenor f c N = Inl e"
proof (cases "IntegerRange (n + 1)")
  case False
  then show ?thesis unfolding SinkingNotionals_def Let_def using assms(1) by simp
next
  case True
  consider "n + 1 < 0" | "n = - 1" | "n = 0" using assms(2) by linarith
  then show ?thesis
  proof cases
    case 1
    then show ?thesis unfolding SinkingNotionals_def Let_def
      using assms(1) True vector_new_negative [OF 1 True] by simp
  next
    case 2
    have "vector_new (word_of_int 0) = Inr []" using vector_new_Size [of 0] by (simp add: IntegerRange_def)
    then show ?thesis unfolding SinkingNotionals_def Let_def
      using assms(1) True 2 by (simp add: set_front_def)
  next
    case 3
    have "vector_new (word_of_int 1) = Inr [Finite 0]"
      using vector_new_Size [of 1] by (simp add: IntegerRange_def)
    then show ?thesis unfolding SinkingNotionals_def Let_def
      using assms(1) True 3 unat_Size_zero_pred
      by (simp add: set_front_def notionalsLoop_first_step_out del: word_of_int_0)
  qed
qed

lemma SinkingNotionals_returns:
  assumes "isSubPeriod ops (Period_of_Frequency f) tenor = Inr (Some n)"
    and "1 \<le> n" and "IntegerRange (n + 1)"
  shows "\<exists>ns. SinkingNotionals ops d tenor f c N = Inr ns \<and> length ns = nat (n + 1) \<and>
           ns ! 0 = N \<and> ns ! nat n = Finite 0"
proof -
  let ?v = "(replicate (nat (n + 1)) (Finite 0))[0 := N]"
  have len: "length ?v = nat (n + 1)" by simp
  have "nat (n - 1) < length ?v" using assms(2) by simp
  from notionalsLoop_Inr [OF this]
  obtain v' where v': "notionalsLoop 0 (nat (n - 1)) (Real_div c (Real_of_int (Frequency_value f)))
              (Real_pow (Real_add (Finite 1) (Real_div c (Real_of_int (Frequency_value f)))) n)
              N (Finite 1) ?v = Inr v'" "length v' = length ?v"
      "\<forall>j. j \<le> 0 \<or> nat (n - 1) < j \<longrightarrow> v' ! j = ?v ! j"
    by blast
  have ne: "v' \<noteq> []" using v'(2) assms(2) by auto
  have l1: "length v' - 1 = nat n" using v'(2) assms(2) by simp
  have eq: "SinkingNotionals ops d tenor f c N = Inr (v'[nat n := Finite 0])"
    using SinkingNotionals_Some [OF assms] v'(1) ne l1 by (simp add: set_back_def)
  have "v' ! 0 = N" using v'(3) assms(2) by simp
  then have "(v'[nat n := Finite 0]) ! 0 = N" using assms(2) by simp
  moreover have "(v'[nat n := Finite 0]) ! nat n = Finite 0" using v'(2) assms(2) by simp
  moreover have "length (v'[nat n := Finite 0]) = nat (n + 1)" using v'(2) by simp
  ultimately show ?thesis using eq by blast
qed

subsection \<open>The shape of the notional sequence\<close>

lemma isSubPeriod_Annual_1Y:
  "isSubPeriod specOps (Period_of_Frequency Annual) (Period 1 Years) = Inr (Some 1)"
  by code_simp

lemma isSubPeriod_Quarterly_1Y:
  "isSubPeriod specOps (Period_of_Frequency Quarterly) (Period 1 Years) = Inr (Some 4)"
  by code_simp

lemma isSubPeriod_Quarterly_0M:
  "isSubPeriod specOps (Period_of_Frequency Quarterly) (Period 0 Months) = Inr (Some 0)"
  by code_simp

text \<open>
  Claim C9. When the compatibility check reports one period, the bound \<^verbatim>\<open>(Size)nPeriods-1\<close>
  of the loop is zero, so the loop body never runs, and the notionals are exactly the
  initial notional followed by zero, whatever the coupon rate and the initial notional.
\<close>

theorem SinkingNotionals_single_period:
  assumes "isSubPeriod ops (Period_of_Frequency sinkingFrequency) maturityTenor = Inr (Some 1)"
  shows "unat ((word_of_int 1 :: Size) - 1) = 0 \<and>
         SinkingNotionals ops startDate maturityTenor sinkingFrequency couponRate initialNotional =
           Inr [initialNotional, Finite 0]"
proof -
  have r: "IntegerRange (1 + 1)" by (simp add: IntegerRange_def)
  have "SinkingNotionals ops startDate maturityTenor sinkingFrequency couponRate initialNotional =
           Inr [initialNotional, Finite 0]"
    using SinkingNotionals_Some [OF assms _ r, of startDate couponRate initialNotional]
    by (simp add: notionalsLoop.simps set_back_def numeral_2_eq_2)
  then show ?thesis by simp
qed

theorem SinkingNotionals_single_period_witness:
  "isSubPeriod specOps (Period_of_Frequency Annual) (Period 1 Years) = Inr (Some 1) \<and>
   SinkingNotionals specOps 0 (Period 1 Years) Annual (Finite (5 / 100)) (Finite 100) =
     Inr [Finite 100, Finite 0]"
  using SinkingNotionals_single_period [OF isSubPeriod_Annual_1Y, of 0 "Finite (5 / 100)" "Finite 100"]
    isSubPeriod_Annual_1Y
  by simp

text \<open>
  Claim C4. When the compatibility check reports \<open>nPeriods\<close>, every sequence that
  \<^verbatim>\<open>SinkingNotionals\<close> returns has \<open>nPeriods + 1\<close> entries, starts with the initial notional
  and ends with exactly zero; and a sequence is returned whenever \<open>nPeriods\<close> is at least
  one and \<open>nPeriods + 1\<close> is an \<^verbatim>\<open>Integer\<close>.
\<close>

theorem SinkingNotionals_shape:
  assumes "isSubPeriod ops (Period_of_Frequency sinkingFrequency) maturityTenor = Inr (Some nPeriods)"
  shows "(1 \<le> nPeriods \<and> nPeriods < 2147483647 \<longrightarrow>
            (\<exists>ns. SinkingNotionals ops startDate maturityTenor sinkingFrequency couponRate
                     initialNotional = Inr ns)) \<and>
         (\<forall>ns. SinkingNotionals ops startDate maturityTenor sinkingFrequency couponRate
                  initialNotional = Inr ns \<longrightarrow>
                length ns = nat (nPeriods + 1) \<and> hd ns = initialNotional \<and> last ns = Finite 0)"
proof (intro conjI impI allI)
  assume "1 \<le> nPeriods \<and> nPeriods < 2147483647"
  then have "1 \<le> nPeriods" "IntegerRange (nPeriods + 1)" by (simp_all add: IntegerRange_def)
  from SinkingNotionals_returns [OF assms this]
  show "\<exists>ns. SinkingNotionals ops startDate maturityTenor sinkingFrequency couponRate
                initialNotional = Inr ns" by blast
next
  fix ns
  assume ret: "SinkingNotionals ops startDate maturityTenor sinkingFrequency couponRate
                 initialNotional = Inr ns"
  have n1: "1 \<le> nPeriods"
  proof (rule ccontr)
    assume "\<not> 1 \<le> nPeriods"
    then have "nPeriods < 1" by simp
    from SinkingNotionals_bad_count [OF assms this, of startDate couponRate initialNotional] ret
    show False by auto
  qed
  have rng: "IntegerRange (nPeriods + 1)"
  proof (rule ccontr)
    assume "\<not> IntegerRange (nPeriods + 1)"
    then have "SinkingNotionals ops startDate maturityTenor sinkingFrequency couponRate
                 initialNotional = Inl IntegerOverflow"
      unfolding SinkingNotionals_def Let_def using assms by simp
    then show False using ret by simp
  qed
  from SinkingNotionals_returns [OF assms n1 rng, of startDate couponRate initialNotional] ret
  have p: "length ns = nat (nPeriods + 1)" "ns ! 0 = initialNotional" "ns ! nat nPeriods = Finite 0"
    by simp_all
  have ne: "ns \<noteq> []" using p(1) n1 by auto
  have "hd ns = initialNotional" using p(2) ne by (simp add: hd_conv_nth)
  moreover have "last ns = Finite 0"
  proof -
    have "length ns - 1 = nat nPeriods" using p(1) n1 by simp
    then show ?thesis using p(3) ne by (simp add: last_conv_nth)
  qed
  ultimately show "length ns = nat (nPeriods + 1)" "hd ns = initialNotional" "last ns = Finite 0"
    using p(1) by simp_all
qed

theorem SinkingNotionals_shape_witness:
  "isSubPeriod specOps (Period_of_Frequency Quarterly) (Period 1 Years) = Inr (Some 4) \<and>
   (\<exists>ns. SinkingNotionals specOps 0 (Period 1 Years) Quarterly (Finite (5 / 100)) (Finite 100) =
            Inr ns \<and>
          length ns = 5 \<and> hd ns = Finite 100 \<and> last ns = Finite 0)"
  using SinkingNotionals_shape [OF isSubPeriod_Quarterly_1Y, of 0 "Finite (5 / 100)" "Finite 100"]
    isSubPeriod_Quarterly_1Y
  by auto

subsection \<open>The loop of the redemptions and the vector accesses\<close>

lemma unat_Size_length_pred:
  assumes "m < 2147483648"
  shows "unat ((word_of_nat (Suc m) :: Size) - 1) = m"
proof -
  have "(word_of_nat (Suc m) :: Size) - 1 = word_of_nat m" by simp
  moreover have "unat (word_of_nat m :: Size) = m"
    using assms by (simp add: unat_of_nat take_bit_nat_eq_self)
  ultimately show ?thesis by presburger
qed

lemma vector_new_of_nat:
  assumes "m < 2147483648"
  shows "vector_new ((word_of_nat (Suc m) :: Size) - 1) = Inr (replicate m (Finite 0))"
  using assms unat_Size_length_pred [OF assms]
  unfolding vector_new_def vector_max_size_eq by simp

lemma redemptionsLoop_Inr:
  "n < length v \<Longrightarrow> length r = n \<Longrightarrow>
   \<exists>r'. redemptionsLoop i n v N r = Inr r' \<and> length r' = n \<and>
        (\<forall>k<n. r' ! k =
           (if i \<le> k
            then Real_mul (Real_div (Real_sub (v ! k) (v ! (k + 1))) N) (Finite 100)
            else r ! k))"
proof (induction i n v N r rule: redemptionsLoop.induct)
  case (1 i n v N r)
  show ?case
  proof (cases "i < n")
    case False
    then show ?thesis using "1.prems" by (simp add: redemptionsLoop.simps)
  next
    case True
    define x where "x = Real_mul (Real_div (Real_sub (v ! i) (v ! (i + 1))) N) (Finite 100)"
    have inb: "i + 1 < length v \<and> i < length r" using True "1.prems" by simp
    have "length (r[i := x]) = n" using "1.prems" by simp
    from "1.IH" [OF True inb "1.prems"(1)] this
    obtain r' where r': "redemptionsLoop (i + 1) n v N (r[i := x]) = Inr r'" "length r' = n"
      "\<forall>k<n. r' ! k =
           (if i + 1 \<le> k
            then Real_mul (Real_div (Real_sub (v ! k) (v ! (k + 1))) N) (Finite 100)
            else (r[i := x]) ! k)"
      unfolding x_def by blast
    have "redemptionsLoop i n v N r = Inr r'"
      using True inb r'(1) by (subst redemptionsLoop.simps) (simp add: x_def)
    moreover have "\<forall>k<n. r' ! k =
           (if i \<le> k
            then Real_mul (Real_div (Real_sub (v ! k) (v ! (k + 1))) N) (Finite 100)
            else r ! k)"
    proof (intro allI impI)
      fix k assume "k < n"
      then show "r' ! k =
           (if i \<le> k
            then Real_mul (Real_div (Real_sub (v ! k) (v ! (k + 1))) N) (Finite 100)
            else r ! k)"
        using r'(3) inb by (cases "k = i") (auto simp: x_def)
    qed
    ultimately show ?thesis using r'(2) by blast
  qed
qed

lemma SinkingRedemptions_of_notionals:
  assumes "SinkingNotionals ops d tenor f c N = Inr ns"
    and "length ns = Suc n" and "n < 2147483648"
  shows "\<exists>rs. SinkingRedemptions ops d tenor f c N = Inr rs \<and> length rs = n \<and>
           (\<forall>k<n. rs ! k = Real_mul (Real_div (Real_sub (ns ! k) (ns ! (k + 1))) N) (Finite 100))"
proof -
  have "n < length ns" using assms(2) by simp
  from redemptionsLoop_Inr [OF this, of "replicate n (Finite 0)" 0 N]
  obtain rs where rs: "redemptionsLoop 0 n ns N (replicate n (Finite 0)) = Inr rs" "length rs = n"
    "\<forall>k<n. rs ! k = Real_mul (Real_div (Real_sub (ns ! k) (ns ! (k + 1))) N) (Finite 100)"
    by auto
  have "SinkingRedemptions ops d tenor f c N = Inr rs"
    unfolding SinkingRedemptions_def Let_def
    using assms(1,2) vector_new_of_nat [OF assms(3)] unat_Size_length_pred [OF assms(3)] rs(1)
    by simp
  then show ?thesis using rs(2,3) by blast
qed

lemma SinkingRedemptions_error:
  "SinkingNotionals ops d tenor f c N = Inl e \<Longrightarrow> SinkingRedemptions ops d tenor f c N = Inl e"
  by (simp add: SinkingRedemptions_def)

lemma SinkingNotionals_zero_count:
  assumes "isSubPeriod ops (Period_of_Frequency f) tenor = Inr (Some 0)"
  shows "SinkingNotionals ops d tenor f c N = Inl OutOfBounds"
proof -
  have "vector_new (word_of_int 1) = Inr [Finite 0]"
    using vector_new_Size [of 1] by (simp add: IntegerRange_def)
  then show ?thesis unfolding SinkingNotionals_def Let_def
    using assms unat_Size_zero_pred
    by (simp add: set_front_def notionalsLoop_first_step_out IntegerRange_def del: word_of_int_0)
qed

text \<open>
  Claim C10. When the compatibility check reports at least one period, no vector access of
  \<^verbatim>\<open>SinkingNotionals\<close> and \<^verbatim>\<open>SinkingRedemptions\<close> is out of bounds: neither ends in
  \<open>OutOfBounds\<close>, and both return a sequence when \<open>nPeriods + 1\<close> is an \<^verbatim>\<open>Integer\<close>. The
  hypothesis is needed: a tenor of zero months makes the check report zero quarterly
  periods, the bound \<^verbatim>\<open>(Size)nPeriods-1\<close> wraps around to \<^verbatim>\<open>2^64 - 1\<close>, and the first run of
  the loop body writes past the one-element vector.
\<close>

theorem vector_accesses_in_bounds:
  "(\<forall>ops sinkingFrequency maturityTenor nPeriods startDate couponRate initialNotional.
      isSubPeriod ops (Period_of_Frequency sinkingFrequency) maturityTenor = Inr (Some nPeriods) \<and>
      1 \<le> nPeriods \<longrightarrow>
        SinkingNotionals ops startDate maturityTenor sinkingFrequency couponRate initialNotional
          \<noteq> Inl OutOfBounds \<and>
        SinkingRedemptions ops startDate maturityTenor sinkingFrequency couponRate initialNotional
          \<noteq> Inl OutOfBounds \<and>
        (nPeriods < 2147483647 \<longrightarrow>
           (\<exists>ns rs.
              SinkingNotionals ops startDate maturityTenor sinkingFrequency couponRate
                initialNotional = Inr ns \<and>
              SinkingRedemptions ops startDate maturityTenor sinkingFrequency couponRate
                initialNotional = Inr rs))) \<and>
   (\<forall>startDate couponRate initialNotional.
      isSubPeriod specOps (Period_of_Frequency Quarterly) (Period 0 Months) = Inr (Some 0) \<and>
      unat ((word_of_int 0 :: Size) - 1) = 18446744073709551615 \<and>
      SinkingNotionals specOps startDate (Period 0 Months) Quarterly couponRate initialNotional
        = Inl OutOfBounds \<and>
      SinkingRedemptions specOps startDate (Period 0 Months) Quarterly couponRate initialNotional
        = Inl OutOfBounds)"
proof (intro conjI allI impI)
  fix ops f tenor n d c N
  assume a: "isSubPeriod ops (Period_of_Frequency f) tenor = Inr (Some n) \<and> 1 \<le> n"
  then have chk: "isSubPeriod ops (Period_of_Frequency f) tenor = Inr (Some n)" and n1: "1 \<le> n"
    by simp_all
  have ok: "\<exists>ns rs. SinkingNotionals ops d tenor f c N = Inr ns \<and>
                   SinkingRedemptions ops d tenor f c N = Inr rs" if "IntegerRange (n + 1)"
  proof -
    from SinkingNotionals_returns [OF chk n1 that, of d c N]
    obtain ns where ns: "SinkingNotionals ops d tenor f c N = Inr ns" "length ns = nat (n + 1)"
      by blast
    have "length ns = Suc (nat n)" using ns(2) n1 by (simp add: nat_add_distrib)
    moreover have "nat n < 2147483648" using that unfolding IntegerRange_def by linarith
    ultimately obtain rs where "SinkingRedemptions ops d tenor f c N = Inr rs"
      using SinkingRedemptions_of_notionals [OF ns(1)] by blast
    then show ?thesis using ns(1) by blast
  qed
  have bad: "SinkingNotionals ops d tenor f c N = Inl IntegerOverflow" if "\<not> IntegerRange (n + 1)"
    unfolding SinkingNotionals_def Let_def using chk that by simp
  show "SinkingNotionals ops d tenor f c N \<noteq> Inl OutOfBounds"
    using ok bad by (cases "IntegerRange (n + 1)") auto
  show "SinkingRedemptions ops d tenor f c N \<noteq> Inl OutOfBounds"
    using ok bad SinkingRedemptions_error [of ops d tenor f c N IntegerOverflow]
    by (cases "IntegerRange (n + 1)") auto
  show "\<exists>ns rs. SinkingNotionals ops d tenor f c N = Inr ns \<and>
                SinkingRedemptions ops d tenor f c N = Inr rs" if "n < 2147483647"
    using ok n1 that by (simp add: IntegerRange_def)
next
  show "isSubPeriod specOps (Period_of_Frequency Quarterly) (Period 0 Months) = Inr (Some 0)"
    by (rule isSubPeriod_Quarterly_0M)
next
  show "unat ((word_of_int 0 :: Size) - 1) = 18446744073709551615"
    by (simp add: unsigned_minus_1_eq_mask mask_eq_exp_minus_1)
next
  fix d c N
  show "SinkingNotionals specOps d (Period 0 Months) Quarterly c N = Inl OutOfBounds"
    by (rule SinkingNotionals_zero_count [OF isSubPeriod_Quarterly_0M])
  then show "SinkingRedemptions specOps d (Period 0 Months) Quarterly c N = Inl OutOfBounds"
    by (rule SinkingRedemptions_error)
qed

theorem vector_accesses_in_bounds_witness:
  "isSubPeriod specOps (Period_of_Frequency Quarterly) (Period 1 Years) = Inr (Some 4) \<and>
   (1::int) \<le> 4 \<and>
   SinkingNotionals specOps 0 (Period 1 Years) Quarterly (Finite (5 / 100)) (Finite 100)
     \<noteq> Inl OutOfBounds \<and>
   SinkingRedemptions specOps 0 (Period 1 Years) Quarterly (Finite (5 / 100)) (Finite 100)
     \<noteq> Inl OutOfBounds"
  using vector_accesses_in_bounds isSubPeriod_Quarterly_1Y
  by (metis one_le_numeral)

subsection \<open>The search of the compatibility check\<close>

lemma Real_to_Integer_range: "Real_to_Integer x = Inr t \<Longrightarrow> IntegerRange t"
  by (cases x) (auto simp: Let_def split: if_splits)

lemma Real_to_Integer_of_int:
  "IntegerRange z \<Longrightarrow> Real_to_Integer (Finite (of_int z)) = Inr z"
  by simp

lemma searchLoop_decided:
  assumes "i \<le> k" and "k \<le> h" and "k \<le> 2147483647"
    and "\<forall>j. i \<le> j \<and> j < k \<longrightarrow>
           (\<exists>t. multiply ops subPeriod j = Inr t \<and> equals ops t superPeriod = Inr False)"
  shows "searchLoop ops subPeriod superPeriod i h =
           (case multiply ops subPeriod k of
              Inl e \<Rightarrow> Inr None
            | Inr t \<Rightarrow>
                (case equals ops t superPeriod of
                   Inl e \<Rightarrow> Inr None
                 | Inr True \<Rightarrow> Inr (Some k)
                 | Inr False \<Rightarrow>
                     (if k = 2147483647 then Inl IntegerOverflow
                      else searchLoop ops subPeriod superPeriod (k + 1) h)))"
  using assms
proof (induction "nat (k - i)" arbitrary: i)
  case 0
  then have ik: "i = k" by simp
  have kh: "k \<le> h" by (rule "0.prems"(2))
  show ?case unfolding ik by (subst searchLoop.simps) (simp add: kh)
next
  case (Suc d)
  then have lt: "i < k" by linarith
  then obtain t where t: "multiply ops subPeriod i = Inr t" "equals ops t superPeriod = Inr False"
    using Suc.prems(4) by blast
  have ne: "i \<noteq> 2147483647" using lt Suc.prems(3) by linarith
  have "d = nat (k - (i + 1))" using Suc.hyps(2) by linarith
  moreover have "i + 1 \<le> k" using lt by simp
  moreover have "\<forall>j. i + 1 \<le> j \<and> j < k \<longrightarrow>
           (\<exists>t. multiply ops subPeriod j = Inr t \<and> equals ops t superPeriod = Inr False)"
    using Suc.prems(4) by simp
  ultimately have IH: "searchLoop ops subPeriod superPeriod (i + 1) h =
           (case multiply ops subPeriod k of
              Inl e \<Rightarrow> Inr None
            | Inr t \<Rightarrow>
                (case equals ops t superPeriod of
                   Inl e \<Rightarrow> Inr None
                 | Inr True \<Rightarrow> Inr (Some k)
                 | Inr False \<Rightarrow>
                     (if k = 2147483647 then Inl IntegerOverflow
                      else searchLoop ops subPeriod superPeriod (k + 1) h)))"
    using Suc.hyps(1) Suc.prems(2,3) by blast
  have "i \<le> h" using lt Suc.prems(2) by linarith
  then have "searchLoop ops subPeriod superPeriod i h =
             searchLoop ops subPeriod superPeriod (i + 1) h"
    using t ne by (subst searchLoop.simps) simp
  then show ?case using IH by simp
qed

lemma searchLoop_Some:
  "searchLoop ops subPeriod superPeriod i h = Inr (Some k) \<Longrightarrow>
   i \<le> k \<and> k \<le> h \<and>
   (\<exists>t. multiply ops subPeriod k = Inr t \<and> equals ops t superPeriod = Inr True)"
proof (induction ops subPeriod superPeriod i h rule: searchLoop.induct)
  case (1 ops subPeriod superPeriod i h)
  from "1.prems" have ih: "i \<le> h"
    by (subst (asm) searchLoop.simps) (simp split: if_splits)
  from "1.prems" ih obtain t where t: "multiply ops subPeriod i = Inr t"
    by (subst (asm) searchLoop.simps) (auto split: sum.splits)
  from "1.prems" ih t obtain b where b: "equals ops t superPeriod = Inr b"
    by (subst (asm) searchLoop.simps) (auto split: sum.splits)
  show ?case
  proof (cases b)
    case True
    then have "k = i" using "1.prems" ih t b by (subst (asm) searchLoop.simps) simp
    then show ?thesis using ih t b True by simp
  next
    case False
    then have ne: "i \<noteq> 2147483647" and
      rec: "searchLoop ops subPeriod superPeriod (i + 1) h = Inr (Some k)"
      using "1.prems" ih t b by (subst (asm) searchLoop.simps, simp split: if_splits)+
    from "1.IH" [OF ih t b _ ne rec] False show ?thesis by auto
  qed
qed

lemma isSubPeriod_window:
  assumes "daysMinMax superPeriod = Inr (a1, a2)" and "daysMinMax subPeriod = Inr (b1, b2)"
    and "b1 \<noteq> 0" and "b2 \<noteq> 0"
    and "IntegerRange \<lfloor>real_of_int a1 / real_of_int b2\<rfloor>"
    and "IntegerRange \<lceil>real_of_int a2 / real_of_int b1\<rceil>"
  shows "isSubPeriod ops subPeriod superPeriod =
           searchLoop ops subPeriod superPeriod
             \<lfloor>real_of_int a1 / real_of_int b2\<rfloor> \<lceil>real_of_int a2 / real_of_int b1\<rceil>"
  unfolding isSubPeriod_def Let_def
  using assms by (simp add: Real_of_int_def del: daysMinMax.simps)

text \<open>
  Claim C3, as the code has it. The \<^verbatim>\<open>catch\<close> clause encloses the whole loop, so the
  first candidate whose scaled period cannot be built or compared ends the search: when
  every candidate from \<open>lowRatio\<close> up to \<open>k\<close> was built and compared unequal and candidate
  \<open>k\<close> of the window throws, \<^verbatim>\<open>isSubPeriod\<close> returns \<^verbatim>\<open>false\<close>, whatever the candidates after
  \<open>k\<close> would give.
\<close>

theorem isSubPeriod_error_ends_search:
  assumes "daysMinMax superPeriod = Inr (superMin, superMax)"
    and "daysMinMax subPeriod = Inr (subMin, subMax)"
    and "subMin \<noteq> 0" and "subMax \<noteq> 0"
    and "lowRatio = \<lfloor>real_of_int superMin / real_of_int subMax\<rfloor>"
    and "highRatio = \<lceil>real_of_int superMax / real_of_int subMin\<rceil>"
    and "IntegerRange lowRatio" and "IntegerRange highRatio"
    and "lowRatio \<le> k" and "k \<le> highRatio"
    and "\<forall>j. lowRatio \<le> j \<and> j < k \<longrightarrow>
           (\<exists>t. multiply ops subPeriod j = Inr t \<and> equals ops t superPeriod = Inr False)"
    and "(\<exists>e. multiply ops subPeriod k = Inl e) \<or>
         (\<exists>t e. multiply ops subPeriod k = Inr t \<and> equals ops t superPeriod = Inl e)"
  shows "isSubPeriod ops subPeriod superPeriod = Inr None"
proof -
  have "k \<le> 2147483647" using assms(8,10) unfolding IntegerRange_def by linarith
  from searchLoop_decided [OF assms(9,10) this assms(11)] assms(12)
  have "searchLoop ops subPeriod superPeriod lowRatio highRatio = Inr None" by auto
  moreover have "isSubPeriod ops subPeriod superPeriod =
                   searchLoop ops subPeriod superPeriod lowRatio highRatio"
    unfolding assms(5,6)
    by (rule isSubPeriod_window [OF assms(1,2,3,4) assms(7) [unfolded assms(5)]
          assms(8) [unfolded assms(6)]])
  ultimately show ?thesis by simp
qed

lemma strictOps_1M:
  "multiply strictOps (Period 1 Months) 0 = Inl (LibraryError ''degenerate period'')"
  "multiply strictOps (Period 1 Months) 1 = Inr (Period 1 Months)"
  "equals strictOps (Period 1 Months) (Period 1 Months) = Inr True"
  by (simp_all add: strictOps_def strictMultiply_def specEquals_def)

theorem isSubPeriod_error_ends_search_witness:
  "daysMinMax (Period 1 Months) = Inr (28, 31) \<and>
   (0::int) = \<lfloor>real_of_int 28 / real_of_int 31\<rfloor> \<and>
   (2::int) = \<lceil>real_of_int 31 / real_of_int 28\<rceil> \<and>
   multiply strictOps (Period 1 Months) 0 = Inl (LibraryError ''degenerate period'') \<and>
   isSubPeriod strictOps (Period 1 Months) (Period 1 Months) = Inr None"
proof -
  have d: "daysMinMax (Period 1 Months) = Inr (28, 31)"
    by (simp add: Integer_pair_def IntegerRange_def)
  have lo: "(0::int) = \<lfloor>real_of_int 28 / real_of_int 31\<rfloor>" by simp
  have hi: "(2::int) = \<lceil>real_of_int 31 / real_of_int 28\<rceil>" by simp
  have none_before: "\<forall>j. (0::int) \<le> j \<and> j < 0 \<longrightarrow>
      (\<exists>t. multiply strictOps (Period 1 Months) j = Inr t \<and>
           equals strictOps t (Period 1 Months) = Inr False)"
    by linarith
  have fails: "(\<exists>e. multiply strictOps (Period 1 Months) 0 = Inl e) \<or>
      (\<exists>t e. multiply strictOps (Period 1 Months) 0 = Inr t \<and>
             equals strictOps t (Period 1 Months) = Inl e)"
    using strictOps_1M(1) by simp
  have "isSubPeriod strictOps (Period 1 Months) (Period 1 Months) = Inr None"
    by (rule isSubPeriod_error_ends_search [OF d d _ _ lo hi _ _ _ _ none_before fails])
       (simp_all add: IntegerRange_def)
  then show ?thesis using d lo hi strictOps_1M(1) by simp
qed

lemma isSubPeriod_strictOps_1M:
  "isSubPeriod strictOps (Period 1 Months) (Period 1 Months) = Inr None"
  by code_simp

lemma isSubPeriod_specOps_1M:
  "isSubPeriod specOps (Period 1 Months) (Period 1 Months) = Inr (Some 1)"
  by code_simp

lemma searchLoop_strictOps_next:
  "searchLoop strictOps (Period 1 Months) (Period 1 Months) 1 2 = Inr (Some 1)"
  by code_simp

text \<open>
  Claim C3 as stated fails. One month against one month is searched over the candidates
  0, 1 and 2. With a multiplication that rejects the degenerate candidate 0, the search
  reports incompatibility, although candidate 1 is valid and matches: a search that
  skipped candidate 0 (the search from 1) finds it, and so does the search with the
  multiplication that never throws.
\<close>

theorem invalid_candidate_hides_match:
  "multiply strictOps (Period 1 Months) 0 = Inl (LibraryError ''degenerate period'') \<and>
   multiply strictOps (Period 1 Months) 1 = Inr (Period 1 Months) \<and>
   equals strictOps (Period 1 Months) (Period 1 Months) = Inr True \<and>
   searchLoop strictOps (Period 1 Months) (Period 1 Months) 0 2 = Inr None \<and>
   searchLoop strictOps (Period 1 Months) (Period 1 Months) 1 2 = Inr (Some 1) \<and>
   isSubPeriod strictOps (Period 1 Months) (Period 1 Months) = Inr None \<and>
   isSubPeriod specOps (Period 1 Months) (Period 1 Months) = Inr (Some 1)"
proof -
  have "searchLoop strictOps (Period 1 Months) (Period 1 Months) 0 2 = Inr None"
    by code_simp
  then show ?thesis
    using strictOps_1M isSubPeriod_strictOps_1M isSubPeriod_specOps_1M searchLoop_strictOps_next
    by simp
qed

subsection \<open>The failures of the constructors\<close>

lemma isSubPeriod_Annual_18M:
  "isSubPeriod specOps (Period_of_Frequency Annual) (Period 18 Months) = Inr None"
  by code_simp

lemma SinkingSchedule_Inr_advance:
  "SinkingSchedule lib startDate tenor f calendar = Inr schedule \<Longrightarrow>
   \<exists>maturityDate. advance lib startDate tenor = Inr maturityDate"
  unfolding SinkingSchedule_def Let_def
  by (cases "advance lib startDate tenor") simp_all

text \<open>
  Claim C8. For the annual frequency and a tenor of 18 months the compatibility check
  finds no count: no integer multiple of one year equals 18 months. \<^verbatim>\<open>SinkingNotionals\<close>
  fails with the incompatible-frequency error, and so does the sinking-fund constructor
  whenever the library builds its schedule.
\<close>

theorem annual_frequency_18_months:
  "isSubPeriod specOps (Period_of_Frequency Annual) (Period 18 Months) = Inr None \<and>
   (\<forall>i t. multiply specOps (Period_of_Frequency Annual) i = Inr t \<longrightarrow>
          equals specOps t (Period 18 Months) = Inr False) \<and>
   SinkingNotionals specOps startDate (Period 18 Months) Annual couponRate initialNotional =
     Inl IncompatibleFrequency \<and>
   (SinkingSchedule lib startDate (Period 18 Months) Annual calendar = Inr schedule \<longrightarrow>
      AmortizingFixedRateBond_sinking lib specOps settlementDays calendar initialNotional
        startDate (Period 18 Months) Annual couponRate accrualDayCounter paymentConvention
        issueDate = Inl IncompatibleFrequency)"
proof (intro conjI allI impI)
  show "isSubPeriod specOps (Period_of_Frequency Annual) (Period 18 Months) = Inr None"
    by (rule isSubPeriod_Annual_18M)
next
  fix i t
  assume "multiply specOps (Period_of_Frequency Annual) i = Inr t"
  then have t: "t = Period i Years" by (auto simp: specOps_def specMultiply_def)
  have "12 * i \<noteq> 18" by presburger
  then show "equals specOps t (Period 18 Months) = Inr False"
    unfolding t by (simp add: specOps_def specEquals_def)
next
  show n: "SinkingNotionals specOps startDate (Period 18 Months) Annual couponRate initialNotional =
     Inl IncompatibleFrequency"
    unfolding SinkingNotionals_def Let_def using isSubPeriod_Annual_18M by simp
  assume s: "SinkingSchedule lib startDate (Period 18 Months) Annual calendar = Inr schedule"
  then obtain maturityDate where "advance lib startDate (Period 18 Months) = Inr maturityDate"
    using SinkingSchedule_Inr_advance by blast
  then show "AmortizingFixedRateBond_sinking lib specOps settlementDays calendar initialNotional
        startDate (Period 18 Months) Annual couponRate accrualDayCounter paymentConvention
        issueDate = Inl IncompatibleFrequency"
    unfolding AmortizingFixedRateBond_sinking_def using s n by simp
qed

lemma SinkingSchedule_periodLegLibrary:
  "SinkingSchedule periodLegLibrary startDate tenor f calendar =
     Inr \<lparr> schedule_calendar = calendar, schedule_tenor = Period_of_Frequency f,
           schedule_endDate = startDate \<rparr>"
  by (simp add: SinkingSchedule_def periodLegLibrary_def)

theorem annual_frequency_18_months_witness:
  "SinkingSchedule periodLegLibrary 0 (Period 18 Months) Annual ''TARGET'' =
     Inr \<lparr> schedule_calendar = ''TARGET'', schedule_tenor = Period 1 Years,
           schedule_endDate = 0 \<rparr> \<and>
   AmortizingFixedRateBond_sinking periodLegLibrary specOps 3 ''TARGET'' (Finite 100)
     0 (Period 18 Months) Annual (Finite (5 / 100)) ''Actual/360'' Unadjusted 0 =
     Inl IncompatibleFrequency \<and>
   multiply specOps (Period_of_Frequency Annual) 2 = Inr (Period 2 Years) \<and>
   equals specOps (Period 2 Years) (Period 18 Months) = Inr False"
proof -
  have m: "multiply specOps (Period_of_Frequency Annual) 2 = Inr (Period 2 Years)"
    by (simp add: specOps_def specMultiply_def)
  have s: "SinkingSchedule periodLegLibrary 0 (Period 18 Months) Annual ''TARGET'' =
     Inr \<lparr> schedule_calendar = ''TARGET'', schedule_tenor = Period 1 Years,
           schedule_endDate = 0 \<rparr>"
    by (simp add: SinkingSchedule_periodLegLibrary)
  from annual_frequency_18_months [of 0 "Finite (5 / 100)" "Finite 100" periodLegLibrary
      "''TARGET''" "\<lparr> schedule_calendar = ''TARGET'', schedule_tenor = Period 1 Years,
           schedule_endDate = 0 \<rparr>" 3 "''Actual/360''" Unadjusted 0] m s
  show ?thesis by blast
qed

subsection \<open>Multiples of a period\<close>

lemma floor_ratio_le:
  fixes a b k :: int
  assumes "(0 < b \<and> a \<le> k * b) \<or> (b < 0 \<and> k * b \<le> a)"
  shows "\<lfloor>real_of_int a / real_of_int b\<rfloor> \<le> k"
proof -
  have "real_of_int a / real_of_int b \<le> real_of_int k"
  proof (cases "0 < b")
    case True
    then have "a \<le> k * b" using assms by auto
    then have "real_of_int a \<le> real_of_int k * real_of_int b"
      by (metis of_int_le_iff of_int_mult)
    then show ?thesis using True by (simp add: pos_divide_le_eq)
  next
    case False
    then have b: "b < 0" and "k * b \<le> a" using assms by auto
    then have "real_of_int k * real_of_int b \<le> real_of_int a"
      by (metis of_int_le_iff of_int_mult)
    then show ?thesis using b by (simp add: neg_divide_le_eq)
  qed
  then have "\<lfloor>real_of_int a / real_of_int b\<rfloor> \<le> \<lfloor>real_of_int k\<rfloor>" by (rule floor_mono)
  then show ?thesis by simp
qed

lemma ceiling_ratio_ge:
  fixes a b k :: int
  assumes "(0 < b \<and> k * b \<le> a) \<or> (b < 0 \<and> a \<le> k * b)"
  shows "k \<le> \<lceil>real_of_int a / real_of_int b\<rceil>"
proof -
  have "real_of_int k \<le> real_of_int a / real_of_int b"
  proof (cases "0 < b")
    case True
    then have "k * b \<le> a" using assms by auto
    then have "real_of_int k * real_of_int b \<le> real_of_int a"
      by (metis of_int_le_iff of_int_mult)
    then show ?thesis using True by (simp add: pos_le_divide_eq)
  next
    case False
    then have b: "b < 0" and "a \<le> k * b" using assms by auto
    then have "real_of_int a \<le> real_of_int k * real_of_int b"
      by (metis of_int_le_iff of_int_mult)
    then show ?thesis using b by (simp add: neg_le_divide_eq)
  qed
  then have "\<lceil>real_of_int k\<rceil> \<le> \<lceil>real_of_int a / real_of_int b\<rceil>" by (rule ceiling_mono)
  then show ?thesis by simp
qed

lemma ceiling_ratio_le:
  fixes a b k :: int
  assumes "(0 < b \<and> a \<le> k * b) \<or> (b < 0 \<and> k * b \<le> a)"
  shows "\<lceil>real_of_int a / real_of_int b\<rceil> \<le> k"
proof -
  have "real_of_int a / real_of_int b \<le> real_of_int k"
  proof (cases "0 < b")
    case True
    then have "a \<le> k * b" using assms by auto
    then have "real_of_int a \<le> real_of_int k * real_of_int b"
      by (metis of_int_le_iff of_int_mult)
    then show ?thesis using True by (simp add: pos_divide_le_eq)
  next
    case False
    then have b: "b < 0" and "k * b \<le> a" using assms by auto
    then have "real_of_int k * real_of_int b \<le> real_of_int a"
      by (metis of_int_le_iff of_int_mult)
    then show ?thesis using b by (simp add: neg_divide_le_eq)
  qed
  then have "\<lceil>real_of_int a / real_of_int b\<rceil> \<le> \<lceil>real_of_int k\<rceil>" by (rule ceiling_mono)
  then show ?thesis by simp
qed

lemma floor_ratio_ge:
  fixes a b k :: int
  assumes "(0 < b \<and> k * b \<le> a) \<or> (b < 0 \<and> a \<le> k * b)"
  shows "k \<le> \<lfloor>real_of_int a / real_of_int b\<rfloor>"
proof -
  have "real_of_int k \<le> real_of_int a / real_of_int b"
  proof (cases "0 < b")
    case True
    then have "k * b \<le> a" using assms by auto
    then have "real_of_int k * real_of_int b \<le> real_of_int a"
      by (metis of_int_le_iff of_int_mult)
    then show ?thesis using True by (simp add: pos_le_divide_eq)
  next
    case False
    then have b: "b < 0" and "a \<le> k * b" using assms by auto
    then have "real_of_int a \<le> real_of_int k * real_of_int b"
      by (metis of_int_le_iff of_int_mult)
    then show ?thesis using b by (simp add: neg_le_divide_eq)
  qed
  then have "\<lfloor>real_of_int k\<rfloor> \<le> \<lfloor>real_of_int a / real_of_int b\<rfloor>" by (rule floor_mono)
  then show ?thesis by simp
qed

lemma normalize_scaled:
  "normalize (Period (n * k) u) =
     Period (length_P (normalize (Period n u)) * k) (units_P (normalize (Period n u)))"
  by (cases u) simp_all

lemma normalize_length_zero: "length_P (normalize (Period n u)) = 0 \<longleftrightarrow> n = 0"
  by (cases u) simp_all

lemma normalize_family:
  assumes "daysMinMax (Period n u) = Inr (lo, hi)"
  shows "units_P (normalize (Period n u)) = Days \<or> units_P (normalize (Period n u)) = Months"
  using assms by (cases u) simp_all

lemma daysMinMax_Days_family:
  assumes "daysMinMax (Period n u) = Inr (lo, hi)"
    and "units_P (normalize (Period n u)) = Days"
  shows "lo = length_P (normalize (Period n u)) \<and> hi = length_P (normalize (Period n u))"
  using assms by (cases u) (auto simp: Integer_pair_def split: if_splits)

lemma daysMinMax_Months_family:
  assumes "daysMinMax (Period n u) = Inr (lo, hi)"
    and "units_P (normalize (Period n u)) = Months"
    and "M = length_P (normalize (Period n u))"
  shows "IntegerRange lo \<and> IntegerRange hi \<and>
         (0 < M \<longrightarrow> 48 * lo \<le> 1461 * M \<and> 1461 * M \<le> 48 * hi \<and> 28 \<le> lo \<and> 28 \<le> hi) \<and>
         (M < 0 \<longrightarrow> 48 * hi \<le> 1461 * M \<and> 1461 * M \<le> 48 * lo \<and> lo \<le> - 28 \<and> hi \<le> - 28)"
  using assms by (cases u) (auto simp: Integer_pair_def split: if_splits)

lemma specOps_candidate:
  "multiply specOps (Period n u) j = Inr (Period (n * j) u)"
  "equals specOps p q = Inr (normalize p = normalize q)"
  by (simp_all add: specOps_def specMultiply_def specEquals_def)

text \<open>
  Claim C1. Let the sub-period have a length other than zero, let both periods have a day
  range (a known unit, and day counts that are \<^verbatim>\<open>Integer\<close>s), and let the super-period equal
  the sub-period multiplied by a positive \<^verbatim>\<open>Integer\<close> \<open>k\<close>. Then \<^verbatim>\<open>isSubPeriod\<close> succeeds and
  reports the count \<open>k\<close>.
\<close>

theorem isSubPeriod_multiple:
  assumes nz: "length_P subPeriod \<noteq> 0"
    and sub: "daysMinMax subPeriod = Inr subDays"
    and sup: "daysMinMax superPeriod = Inr superDays"
    and kpos: "0 < k" and kmax: "k \<le> 2147483647"
    and mul: "multiply specOps subPeriod k = Inr scaled"
    and eq: "equals specOps scaled superPeriod = Inr True"
  shows "isSubPeriod specOps subPeriod superPeriod = Inr (Some k)"
proof -
  obtain n u where sp: "subPeriod = Period n u" by (cases subPeriod)
  obtain m v where pp: "superPeriod = Period m v" by (cases superPeriod)
  obtain b1 b2 where bd: "subDays = (b1, b2)" by (cases subDays)
  obtain a1 a2 where ad: "superDays = (a1, a2)" by (cases superDays)
  note subd = sub [unfolded sp bd] and supd = sup [unfolded pp ad]
  define Mb where "Mb = length_P (normalize (Period n u))"
  define Ma where "Ma = length_P (normalize (Period m v))"
  have scaled: "scaled = Period (n * k) u"
    using mul unfolding sp specOps_candidate by simp
  have neq: "normalize (Period (n * k) u) = normalize (Period m v)"
    using eq unfolding scaled pp specOps_candidate by simp
  have nsup: "normalize (Period m v) = Period (Mb * k) (units_P (normalize (Period n u)))"
    using neq normalize_scaled [of n k u] unfolding Mb_def by simp
  have Ma: "Ma = Mb * k" unfolding Ma_def nsup by simp
  have units: "units_P (normalize (Period m v)) = units_P (normalize (Period n u))"
    unfolding nsup by simp
  have Mb0: "Mb \<noteq> 0" using nz normalize_length_zero [of n u] unfolding Mb_def sp by simp
  have window: "b1 \<noteq> 0 \<and> b2 \<noteq> 0 \<and>
      0 \<le> \<lfloor>real_of_int a1 / real_of_int b2\<rfloor> \<and> \<lfloor>real_of_int a1 / real_of_int b2\<rfloor> \<le> k \<and>
      k \<le> \<lceil>real_of_int a2 / real_of_int b1\<rceil> \<and> \<lceil>real_of_int a2 / real_of_int b1\<rceil> \<le> 2147483647"
  proof (cases "units_P (normalize (Period n u)) = Days")
    case True
    from daysMinMax_Days_family [OF subd True] have b: "b1 = Mb" "b2 = Mb"
      unfolding Mb_def by simp_all
    from daysMinMax_Days_family [OF supd] True units have a: "a1 = Mb * k" "a2 = Mb * k"
      unfolding Ma [symmetric] Ma_def by simp_all
    have "real_of_int (Mb * k) / real_of_int Mb = real_of_int k" using Mb0 by simp
    then show ?thesis unfolding a b using Mb0 kpos kmax by simp
  next
    case False
    then have mo: "units_P (normalize (Period n u)) = Months"
      using normalize_family [OF subd] by simp
    then have mo': "units_P (normalize (Period m v)) = Months" using units by simp
    from daysMinMax_Months_family [OF subd mo Mb_def]
    have B: "0 < Mb \<longrightarrow> 48 * b1 \<le> 1461 * Mb \<and> 1461 * Mb \<le> 48 * b2 \<and> 28 \<le> b1 \<and> 28 \<le> b2"
      "Mb < 0 \<longrightarrow> 48 * b2 \<le> 1461 * Mb \<and> 1461 * Mb \<le> 48 * b1 \<and> b1 \<le> - 28 \<and> b2 \<le> - 28"
      by simp_all
    from daysMinMax_Months_family [OF supd mo' Ma_def]
    have A: "IntegerRange a1" "IntegerRange a2"
      "0 < Ma \<longrightarrow> 48 * a1 \<le> 1461 * Ma \<and> 1461 * Ma \<le> 48 * a2 \<and> 28 \<le> a1 \<and> 28 \<le> a2"
      "Ma < 0 \<longrightarrow> 48 * a2 \<le> 1461 * Ma \<and> 1461 * Ma \<le> 48 * a1 \<and> a1 \<le> - 28 \<and> a2 \<le> - 28"
      by simp_all
    have MaE: "1461 * Ma = k * (1461 * Mb)" unfolding Ma by simp
    show ?thesis
    proof (cases "0 < Mb")
      case True
      then have Mapos: "0 < Ma" unfolding Ma using kpos by simp
      from B(1) True have b: "48 * b1 \<le> 1461 * Mb" "1461 * Mb \<le> 48 * b2" "28 \<le> b1" "28 \<le> b2"
        by simp_all
      from A(3) Mapos have a: "48 * a1 \<le> 1461 * Ma" "1461 * Ma \<le> 48 * a2" "28 \<le> a1" "28 \<le> a2"
        by simp_all
      have "k * (1461 * Mb) \<le> k * (48 * b2)"
        by (rule mult_left_mono) (use b(2) kpos in simp_all)
      moreover have "k * (48 * b2) = 48 * (k * b2)" by simp
      ultimately have "48 * a1 \<le> 48 * (k * b2)" using a(1) MaE by linarith
      then have le1: "a1 \<le> k * b2" by simp
      have "k * (48 * b1) \<le> k * (1461 * Mb)"
        by (rule mult_left_mono) (use b(1) kpos in simp_all)
      moreover have "k * (48 * b1) = 48 * (k * b1)" by simp
      ultimately have "48 * (k * b1) \<le> 48 * a2" using a(2) MaE by linarith
      then have le2: "k * b1 \<le> a2" by simp
      have le3: "a2 \<le> 2147483647 * b1" using A(2) b(3) unfolding IntegerRange_def by linarith
      have le4: "0 * b2 \<le> a1" using a(3) by simp
      have "\<lfloor>real_of_int a1 / real_of_int b2\<rfloor> \<le> k"
        by (rule floor_ratio_le) (use le1 b(4) in simp)
      moreover have "0 \<le> \<lfloor>real_of_int a1 / real_of_int b2\<rfloor>"
        by (rule floor_ratio_ge) (use le4 b(4) in simp)
      moreover have "k \<le> \<lceil>real_of_int a2 / real_of_int b1\<rceil>"
        by (rule ceiling_ratio_ge) (use le2 b(3) in simp)
      moreover have "\<lceil>real_of_int a2 / real_of_int b1\<rceil> \<le> 2147483647"
        by (rule ceiling_ratio_le) (use le3 b(3) in simp)
      ultimately show ?thesis using b(3,4) by simp
    next
      case False
      then have Mbneg: "Mb < 0" using Mb0 by simp
      then have Maneg: "Ma < 0" unfolding Ma using kpos by (simp add: mult_neg_pos)
      from B(2) Mbneg have b: "48 * b2 \<le> 1461 * Mb" "1461 * Mb \<le> 48 * b1" "b1 \<le> - 28" "b2 \<le> - 28"
        by simp_all
      from A(4) Maneg have a: "48 * a2 \<le> 1461 * Ma" "1461 * Ma \<le> 48 * a1" "a1 \<le> - 28" "a2 \<le> - 28"
        by simp_all
      have "k * (48 * b2) \<le> k * (1461 * Mb)"
        by (rule mult_left_mono) (use b(1) kpos in simp_all)
      moreover have "k * (48 * b2) = 48 * (k * b2)" by simp
      ultimately have "48 * (k * b2) \<le> 48 * a1" using a(2) MaE by linarith
      then have le1: "k * b2 \<le> a1" by simp
      have "k * (1461 * Mb) \<le> k * (48 * b1)"
        by (rule mult_left_mono) (use b(2) kpos in simp_all)
      moreover have "k * (48 * b1) = 48 * (k * b1)" by simp
      ultimately have "48 * a2 \<le> 48 * (k * b1)" using a(1) MaE by linarith
      then have le2: "a2 \<le> k * b1" by simp
      have le3: "2147483647 * b1 \<le> a2" using A(2) b(3) unfolding IntegerRange_def by linarith
      have le4: "a1 \<le> 0 * b2" using a(3) by simp
      have "\<lfloor>real_of_int a1 / real_of_int b2\<rfloor> \<le> k"
        by (rule floor_ratio_le) (use le1 b(4) in simp)
      moreover have "0 \<le> \<lfloor>real_of_int a1 / real_of_int b2\<rfloor>"
        by (rule floor_ratio_ge) (use le4 b(4) in simp)
      moreover have "k \<le> \<lceil>real_of_int a2 / real_of_int b1\<rceil>"
        by (rule ceiling_ratio_ge) (use le2 b(3) in simp)
      moreover have "\<lceil>real_of_int a2 / real_of_int b1\<rceil> \<le> 2147483647"
        by (rule ceiling_ratio_le) (use le3 b(3) in simp)
      ultimately show ?thesis using b(3,4) by simp
    qed
  qed
  define low where "low = \<lfloor>real_of_int a1 / real_of_int b2\<rfloor>"
  define high where "high = \<lceil>real_of_int a2 / real_of_int b1\<rceil>"
  from window have w: "b1 \<noteq> 0" "b2 \<noteq> 0" "0 \<le> low" "low \<le> k" "k \<le> high" "high \<le> 2147483647"
    unfolding low_def high_def by simp_all
  have rl: "IntegerRange low" using w(3,4) kmax unfolding IntegerRange_def by linarith
  have rh: "IntegerRange high" using w(5,6) kpos unfolding IntegerRange_def by linarith
  have search: "isSubPeriod specOps subPeriod superPeriod =
                  searchLoop specOps subPeriod superPeriod low high"
    unfolding low_def high_def
    by (rule isSubPeriod_window [OF sup [unfolded ad] sub [unfolded bd] w(1,2)
          rl [unfolded low_def] rh [unfolded high_def]])
  have before: "\<forall>j. low \<le> j \<and> j < k \<longrightarrow>
      (\<exists>t. multiply specOps subPeriod j = Inr t \<and> equals specOps t superPeriod = Inr False)"
  proof (intro allI impI)
    fix j assume "low \<le> j \<and> j < k"
    then have "Mb * j \<noteq> Mb * k" using Mb0 by simp
    then have "normalize (Period (n * j) u) \<noteq> normalize (Period m v)"
      unfolding nsup normalize_scaled [of n j u] Mb_def by simp
    then show "\<exists>t. multiply specOps subPeriod j = Inr t \<and> equals specOps t superPeriod = Inr False"
      unfolding sp pp specOps_candidate by simp
  qed
  from searchLoop_decided [OF w(4,5) kmax before] mul eq
  have "searchLoop specOps subPeriod superPeriod low high = Inr (Some k)" by simp
  then show ?thesis using search by simp
qed

theorem isSubPeriod_multiple_witness:
  "length_P (Period 6 Months) \<noteq> 0 \<and>
   daysMinMax (Period 6 Months) = Inr (168, 186) \<and>
   daysMinMax (Period 5 Years) = Inr (1825, 1830) \<and>
   (0::int) < 10 \<and> (10::int) \<le> 2147483647 \<and>
   multiply specOps (Period 6 Months) 10 = Inr (Period 60 Months) \<and>
   equals specOps (Period 60 Months) (Period 5 Years) = Inr True \<and>
   isSubPeriod specOps (Period 6 Months) (Period 5 Years) = Inr (Some 10)"
proof -
  have d1: "daysMinMax (Period 6 Months) = Inr (168, 186)"
    by (simp add: Integer_pair_def IntegerRange_def)
  have d2: "daysMinMax (Period 5 Years) = Inr (1825, 1830)"
    by (simp add: Integer_pair_def IntegerRange_def)
  have m: "multiply specOps (Period 6 Months) 10 = Inr (Period 60 Months)"
    by (simp add: specOps_def specMultiply_def)
  have e: "equals specOps (Period 60 Months) (Period 5 Years) = Inr True"
    by (simp add: specOps_def specEquals_def)
  have "isSubPeriod specOps (Period 6 Months) (Period 5 Years) = Inr (Some 10)"
    by (rule isSubPeriod_multiple [OF _ d1 d2 _ _ m e]) simp_all
  then show ?thesis using d1 d2 m e by simp
qed

subsection \<open>The redemptions\<close>

lemma Real_NaN_absorbs [simp]:
  "Real_mul x NaN = NaN" "Real_add x NaN = NaN" "Real_div x NaN = NaN"
  "Real_sub x NaN = NaN" "Real_sub NaN x = NaN"
  by (cases x; simp add: Real_sub_def)+

lemma Real_sub_Finite [simp]: "Real_sub (Finite a) (Finite b) = Finite (a - b)"
  by (simp add: Real_sub_def)

lemma SinkingNotionals_zero_coupon:
  "SinkingNotionals specOps startDate (Period 1 Years) Quarterly (Finite 0) initialNotional =
     Inr [initialNotional, NaN, NaN, NaN, Finite 0]"
proof -
  have r: "IntegerRange (4 + 1)" by (simp add: IntegerRange_def)
  have l: "replicate 5 (Finite 0) = [Finite 0, Finite 0, Finite 0, Finite 0, Finite (0::real)]"
    by (simp add: numeral_eq_Suc)
  have n: "(4::nat) = Suc (Suc (Suc (Suc 0)))" "(3::nat) = Suc (Suc (Suc 0))" by simp_all
  show ?thesis
    using SinkingNotionals_Some [OF isSubPeriod_Quarterly_1Y _ r, of startDate "Finite 0" initialNotional]
    by (simp add: l n notionalsLoop.simps set_back_def Real_of_int_def signedInf_def Let_def)
qed

text \<open>
  Claim C2 fails on the code. With a coupon rate of zero \<^verbatim>\<open>totalValue\<close> is 1, the divisor
  \<^verbatim>\<open>1.0 - 1.0/totalValue\<close> is zero and the dividend \<^verbatim>\<open>compoundedInterest-1.0\<close> is zero: each
  interior notional is not-a-number, and so are all four redemptions of a one-year
  quarterly bond, whatever the initial notional. None of them is 25.
\<close>

theorem zero_coupon_redemptions_not_a_number:
  "SinkingNotionals specOps startDate (Period 1 Years) Quarterly (Finite 0) initialNotional =
     Inr [initialNotional, NaN, NaN, NaN, Finite 0] \<and>
   SinkingRedemptions specOps startDate (Period 1 Years) Quarterly (Finite 0) initialNotional =
     Inr [NaN, NaN, NaN, NaN]"
proof -
  have v: "vector_new ((word_of_nat (Suc 4) :: Size) - 1) = Inr (replicate 4 (Finite 0))"
    by (rule vector_new_of_nat) simp
  have u: "unat ((word_of_nat (Suc 4) :: Size) - 1) = 4"
    by (rule unat_Size_length_pred) simp
  have l: "replicate 4 (Finite 0) = [Finite 0, Finite 0, Finite 0, Finite (0::real)]"
    by (simp add: numeral_eq_Suc)
  have "SinkingRedemptions specOps startDate (Period 1 Years) Quarterly (Finite 0) initialNotional =
     redemptionsLoop 0 4 [initialNotional, NaN, NaN, NaN, Finite 0] initialNotional
       [Finite 0, Finite 0, Finite 0, Finite 0]"
    unfolding SinkingRedemptions_def SinkingNotionals_zero_coupon Let_def
    using v u l by simp
  also have "\<dots> = Inr [NaN, NaN, NaN, NaN]"
    by (simp add: redemptionsLoop.simps numeral_eq_Suc)
  finally show ?thesis using SinkingNotionals_zero_coupon by simp
qed







subsection \<open>The cash flows of the constructors\<close>






end
